theory Spec2Isabelle
  imports Complex_Main "HOL-Library.FSet" "HOL-Library.AList" "HOL-Library.Sublist"
begin

section \<open>PageRank: the transition model and the two estimators of pagerank.py\<close>

text \<open>
  The development embeds \<^verbatim>\<open>src/pagerank/pagerank.py\<close>. Conventions:

  \<^item> A Python \<^verbatim>\<open>dict\<close> is an association list in insertion order, its keys distinct;
    reading a key is \<open>dict_get\<close> (\<^verbatim>\<open>KeyError\<close> when absent), assigning a key is
    \<open>dict_set\<close> (keeps the position of a present key, appends a new one).
  \<^item> A Python \<^verbatim>\<open>set\<close> of pages is a finite set (\<open>fset\<close>).
  \<^item> A Python \<^verbatim>\<open>float\<close> is a rational number and the arithmetic is exact: the
    rounding of IEEE doubles is outside the model. The literal \<^verbatim>\<open>1e-3\<close> is \<open>1/1000\<close>.
  \<^item> Every exception the code can raise is a value \<open>Inl e\<close> of \<open>py_error + 'a\<close>.
  \<^item> The \<^verbatim>\<open>while True\<close> loop of \<^verbatim>\<open>iterate_pagerank\<close> has no bound, so it is a
    partial function into \<open>option\<close>: \<open>None\<close> is "never returns".
  \<^item> The global random generator is an explicit stream of raw draws.
\<close>

subsection \<open>Python values, errors and dictionaries\<close>

datatype py_error = KeyError | IndexError | ZeroDivisionError | ValueError

type_synonym page = string

type_synonym 'v dict = "(page \<times> 'v) list"

type_synonym corpus = "page fset dict"

definition bind_err :: "py_error + 'a \<Rightarrow> ('a \<Rightarrow> py_error + 'b) \<Rightarrow> py_error + 'b" where
  "bind_err m f = (case m of Inl e \<Rightarrow> Inl e | Inr x \<Rightarrow> f x)"

text \<open>A \<^verbatim>\<open>for\<close> loop over a list whose body may raise: the first error ends the loop.\<close>

fun for_each :: "'a list \<Rightarrow> ('a \<Rightarrow> 's \<Rightarrow> py_error + 's) \<Rightarrow> 's \<Rightarrow> py_error + 's" where
  "for_each [] body s = Inr s"
| "for_each (x # xs) body s = bind_err (body x s) (for_each xs body)"

definition keys :: "'v dict \<Rightarrow> page list" where
  "keys d = map fst d"

definition dict_values :: "'v dict \<Rightarrow> 'v list" where
  "dict_values d = map snd d"

definition dict_get :: "'v dict \<Rightarrow> page \<Rightarrow> py_error + 'v" where
  "dict_get d k = (case map_of d k of None \<Rightarrow> Inl KeyError | Some v \<Rightarrow> Inr v)"

definition dict_set :: "'v dict \<Rightarrow> page \<Rightarrow> 'v \<Rightarrow> 'v dict" where
  "dict_set d k v = AList.update k v d"

definition fromkeys :: "page list \<Rightarrow> 'v \<Rightarrow> 'v dict" where
  "fromkeys ks v = map (\<lambda>k. (k, v)) ks"

text \<open>Python's true division \<^verbatim>\<open>a / b\<close>.\<close>

definition py_div :: "rat \<Rightarrow> rat \<Rightarrow> py_error + rat" where
  "py_div a b = (if b = 0 then Inl ZeroDivisionError else Inr (a / b))"

subsection \<open>The data model of the graph\<close>

text \<open>
  The invariants of a graph: (a) every link target is a page of the graph, (b) no page
  links to itself, (c) there is at least one page. \<open>is_dict\<close> is the representation
  invariant of a dictionary.
\<close>

definition is_dict :: "'v dict \<Rightarrow> bool" where
  "is_dict d = distinct (keys d)"

definition links_closed :: "corpus \<Rightarrow> bool" where
  "links_closed c = list_all (\<lambda>(p, ls). fset ls \<subseteq> set (keys c)) c"

definition no_self_links :: "corpus \<Rightarrow> bool" where
  "no_self_links c = list_all (\<lambda>(p, ls). p |\<notin>| ls) c"

definition valid_graph :: "corpus \<Rightarrow> bool" where
  "valid_graph c = (is_dict c \<and> links_closed c \<and> no_self_links c \<and> c \<noteq> [])"

subsection \<open>crawl\<close>

text \<open>
  \<^verbatim>\<open>crawl\<close> reads a directory. The directory listing with, for each file, the list
  of link targets that the regular expression finds in its contents, is the input here.
  First loop: every \<^verbatim>\<open>.html\<close> file gets \<^verbatim>\<open>set(links) - {filename}\<close>. Second loop:
  every page keeps the links that are keys of \<^verbatim>\<open>pages\<close>.
\<close>

definition read_pages :: "(string \<times> string list) list \<Rightarrow> corpus" where
  "read_pages listing =
     fold (\<lambda>(filename, links) pages.
             if \<not> suffix ''.html'' filename then pages
             else dict_set pages filename (fset_of_list links |-| {|filename|}))
          listing []"

definition restrict_links :: "corpus \<Rightarrow> py_error + corpus" where
  "restrict_links pages0 =
     for_each (keys pages0)
       (\<lambda>filename pages.
          bind_err (dict_get pages filename)
            (\<lambda>ls. Inr (dict_set pages filename
                          (ffilter (\<lambda>link. link \<in> set (keys pages)) ls))))
       pages0"

definition crawl :: "(string \<times> string list) list \<Rightarrow> py_error + corpus" where
  "crawl listing = restrict_links (read_pages listing)"

subsection \<open>transition_model\<close>

definition transition_model :: "corpus \<Rightarrow> page \<Rightarrow> rat \<Rightarrow> py_error + rat dict" where
  "transition_model corpus page damping_factor =
     (let prob_values = fromkeys (keys corpus) 0 in
      bind_err (dict_get corpus page) (\<lambda>links.
        if links \<noteq> {||} then
          for_each (keys corpus)
            (\<lambda>p pv.
               bind_err (py_div (1 - damping_factor) (of_nat (length corpus))) (\<lambda>base.
                 let pv1 = dict_set pv p base in
                 if p |\<in>| links then
                   bind_err (dict_get pv1 p) (\<lambda>cur.
                   bind_err (py_div damping_factor (of_nat (fcard links))) (\<lambda>share.
                     Inr (dict_set pv1 p (cur + share))))
                 else Inr pv1))
            prob_values
        else
          for_each (keys corpus)
            (\<lambda>p pv.
               bind_err (py_div 1 (of_nat (length corpus))) (\<lambda>u.
                 Inr (dict_set pv p u)))
            prob_values))"

subsection \<open>iterate_pagerank\<close>

text \<open>
  The dictionary comprehension \<^verbatim>\<open>{k: f(k, v) for k, v in d.items()}\<close>: the items are
  visited in order and each result is stored under its key.
\<close>

definition dict_comp :: "(page \<Rightarrow> 'v \<Rightarrow> py_error + 'w) \<Rightarrow> 'v dict \<Rightarrow> py_error + 'w dict" where
  "dict_comp f d =
     for_each d (\<lambda>(k, v) acc. bind_err (f k v) (\<lambda>w. Inr (dict_set acc k w))) []"

text \<open>
  One pass of the body of the \<^verbatim>\<open>while\<close> loop up to the convergence test: the new
  dictionary \<^verbatim>\<open>new_prob\<close> and the value \<^verbatim>\<open>diff\<close>.
\<close>

definition prob_links_of :: "corpus \<Rightarrow> rat \<Rightarrow> rat dict \<Rightarrow> page \<Rightarrow> py_error + rat" where
  "prob_links_of corpus damping_factor pagerank p =
     for_each (keys corpus)
       (\<lambda>i prob_links.
          bind_err (transition_model corpus i damping_factor) (\<lambda>model_i.
          bind_err (dict_get pagerank i) (\<lambda>r.
          bind_err (dict_get model_i p) (\<lambda>m.
            Inr (prob_links + r * m)))))
       0"

definition iterate_round :: "corpus \<Rightarrow> rat \<Rightarrow> rat dict \<Rightarrow> py_error + (rat dict \<times> rat)" where
  "iterate_round corpus damping_factor pagerank =
     bind_err
       (for_each (keys corpus)
          (\<lambda>p new_prob.
             bind_err (prob_links_of corpus damping_factor pagerank p) (\<lambda>prob_links.
               Inr (dict_set new_prob p prob_links)))
          [])
       (\<lambda>new_prob.
          bind_err
            (for_each (keys corpus)
               (\<lambda>p acc.
                  bind_err (dict_get new_prob p) (\<lambda>a.
                  bind_err (dict_get pagerank p) (\<lambda>b.
                    Inr (acc + \<bar>a - b\<bar>))))
               0)
            (\<lambda>diff. Inr (new_prob, diff)))"

partial_function (option)
  iterate_loop :: "corpus \<Rightarrow> rat \<Rightarrow> rat dict \<Rightarrow> (py_error + rat dict) option"
where
  "iterate_loop corpus damping_factor pagerank =
     (case iterate_round corpus damping_factor pagerank of
        Inl e \<Rightarrow> Some (Inl e)
      | Inr (new_prob, diff) \<Rightarrow>
          if diff < 1 / 1000 then Some (Inr pagerank)
          else iterate_loop corpus damping_factor new_prob)"

definition normalize :: "rat dict \<Rightarrow> py_error + rat dict" where
  "normalize pagerank =
     (let total = sum_list (dict_values pagerank)
      in dict_comp (\<lambda>p v. py_div v total) pagerank)"

definition iterate_pagerank :: "corpus \<Rightarrow> rat \<Rightarrow> (py_error + rat dict) option" where
  "iterate_pagerank corpus damping_factor =
     (let N = length corpus in
      case dict_comp (\<lambda>page ls. py_div 1 (of_nat N)) corpus of
        Inl e \<Rightarrow> Some (Inl e)
      | Inr pagerank0 \<Rightarrow>
          (case iterate_loop corpus damping_factor pagerank0 of
             None \<Rightarrow> None
           | Some (Inl e) \<Rightarrow> Some (Inl e)
           | Some (Inr pagerank) \<Rightarrow> Some (normalize pagerank)))"

subsection \<open>sample_pagerank\<close>

text \<open>
  The random source is a stream of raw draws, one for each call of the generator.
  \<^verbatim>\<open>random.choice(seq)\<close> raises \<^verbatim>\<open>IndexError\<close> on an empty sequence and otherwise
  returns the element at an index below the length; \<^verbatim>\<open>random.random()\<close> is a multiple
  of \<open>2\<^sup>-\<^sup>5\<^sup>3\<close> in \<open>[0, 1)\<close>. \<^verbatim>\<open>random.choices(population, weights)\<close> accumulates
  the weights, rejects a total that is not positive, and bisects the cumulative weights
  between \<open>0\<close> and \<open>n - 1\<close> at \<^verbatim>\<open>random() * total\<close>.
\<close>

type_synonym random_source = "nat \<Rightarrow> nat"

definition random_unit :: "nat \<Rightarrow> rat" where
  "random_unit raw = of_nat (raw mod 2 ^ 53) / 2 ^ 53"

definition random_choice :: "'a list \<Rightarrow> nat \<Rightarrow> py_error + 'a" where
  "random_choice seq raw =
     (if seq = [] then Inl IndexError else Inr (seq ! (raw mod length seq)))"

fun accumulate_from :: "rat \<Rightarrow> rat list \<Rightarrow> rat list" where
  "accumulate_from acc [] = []"
| "accumulate_from acc (x # xs) = (acc + x) # accumulate_from (acc + x) xs"

definition accumulate :: "rat list \<Rightarrow> rat list" where
  "accumulate ws = accumulate_from 0 ws"

function bisect :: "rat list \<Rightarrow> rat \<Rightarrow> nat \<Rightarrow> nat \<Rightarrow> py_error + nat" where
  "bisect a x lo hi =
     (if lo < hi then
        (let mid = (lo + hi) div 2 in
         if \<not> mid < length a then Inl IndexError
         else if x < a ! mid then bisect a x lo mid
         else bisect a x (mid + 1) hi)
      else Inr lo)"
  by pat_completeness auto
termination
  by (relation "measure (\<lambda>(a, x, lo, hi). hi - lo)") auto

declare bisect.simps [simp del]

definition random_choices :: "'a list \<Rightarrow> rat list \<Rightarrow> nat \<Rightarrow> py_error + 'a" where
  "random_choices population weights raw =
     (let n = length population; cum_weights = accumulate weights in
      if length cum_weights \<noteq> n then Inl ValueError
      else if cum_weights = [] then Inl IndexError
      else
        (let total = last cum_weights in
         if total \<le> 0 then Inl ValueError
         else
           bind_err (bisect cum_weights (random_unit raw * total) 0 (n - 1)) (\<lambda>idx.
             if idx < n then Inr (population ! idx) else Inl IndexError)))"

text \<open>
  The walk of \<^verbatim>\<open>sample_pagerank\<close>: the state of the \<^verbatim>\<open>for\<close> loop is the pair of
  \<^verbatim>\<open>count_page\<close> and \<^verbatim>\<open>page\<close>; \<^verbatim>\<open>range(n)\<close> is empty for \<open>n \<le> 0\<close>. The first draw
  picks the start page, draw \<open>i + 1\<close> picks the page after step \<open>i\<close>.
\<close>

definition sample_step ::
  "corpus \<Rightarrow> rat \<Rightarrow> random_source \<Rightarrow> nat \<Rightarrow> int dict \<times> page \<Rightarrow> py_error + (int dict \<times> page)" where
  "sample_step corpus damping_factor rng i st =
     (case st of (count_page, page) \<Rightarrow>
        bind_err (dict_get count_page page) (\<lambda>c.
          let count_page1 = dict_set count_page page (c + 1) in
          bind_err (transition_model corpus page damping_factor) (\<lambda>model_to_sample.
          bind_err (random_choices (keys model_to_sample) (dict_values model_to_sample)
                      (rng (Suc i))) (\<lambda>page1.
            Inr (count_page1, page1)))))"

definition sample_counts :: "corpus \<Rightarrow> rat \<Rightarrow> int \<Rightarrow> random_source \<Rightarrow> py_error + int dict" where
  "sample_counts corpus damping_factor n rng =
     (let count_page = fromkeys (keys corpus) 0 in
      bind_err (random_choice (keys corpus) (rng 0)) (\<lambda>page.
      bind_err (for_each [0 ..< nat n] (sample_step corpus damping_factor rng)
                  (count_page, page)) (\<lambda>(count_page1, page1).
        Inr count_page1)))"

definition sample_pagerank :: "corpus \<Rightarrow> rat \<Rightarrow> int \<Rightarrow> random_source \<Rightarrow> py_error + rat dict" where
  "sample_pagerank corpus damping_factor n rng =
     bind_err (sample_counts corpus damping_factor n rng) (\<lambda>count_page.
       dict_comp (\<lambda>page count. py_div (of_int count) (of_int n)) count_page)"

subsection \<open>The scenarios of the specification\<close>

definition two_cycle :: corpus where
  "two_cycle = [(''A'', {|''B''|}), (''B'', {|''A''|})]"

definition one_dangling :: corpus where
  "one_dangling = [(''A'', {|''B''|}), (''B'', {||})]"

definition single_page :: corpus where
  "single_page = [(''A'', {||})]"

subsection \<open>The value of a page in the transition model\<close>

text \<open>
  The value that \<open>transition_model\<close> stores for page \<open>p\<close>, for a graph of \<open>N\<close> pages and
  a current page with outbound set \<open>links\<close>.
\<close>

definition tm_value :: "nat \<Rightarrow> page fset \<Rightarrow> rat \<Rightarrow> page \<Rightarrow> rat" where
  "tm_value N links d p =
     (if links \<noteq> {||} then
        (if p |\<in>| links then (1 - d) / of_nat N + d / of_nat (fcard links)
         else (1 - d) / of_nat N)
      else 1 / of_nat N)"

subsection \<open>The invariant of the random walk\<close>


subsection \<open>The state in which the iteration stops\<close>

text \<open>
  \<open>rank_after c d k p\<close> is the rank vector after \<open>k\<close> rounds that each replace the rank by
  \<open>new_prob\<close>, starting from \<open>p\<close>. A result \<open>Inr p\<close> of the loop started from \<open>p0\<close> is
  such a vector, for some number of replacements, and its next round passes the
  convergence test.
\<close>

fun rank_after :: "corpus \<Rightarrow> rat \<Rightarrow> nat \<Rightarrow> rat dict \<Rightarrow> py_error + rat dict" where
  "rank_after c d 0 p = Inr p"
| "rank_after c d (Suc k) p =
     bind_err (iterate_round c d p) (\<lambda>(new_prob, diff). rank_after c d k new_prob)"

definition stopped_at :: "corpus \<Rightarrow> rat \<Rightarrow> rat dict \<Rightarrow> py_error + rat dict \<Rightarrow> bool" where
  "stopped_at c d p0 res =
     (case res of
        Inl e \<Rightarrow> True
      | Inr p \<Rightarrow>
          (\<exists>k new_prob diff. rank_after c d k p0 = Inr p \<and>
             iterate_round c d p = Inr (new_prob, diff) \<and> diff < 1 / 1000))"

section \<open>Properties\<close>

subsection \<open>Errors, loops and dictionaries\<close>

lemma bind_err_Inr [simp]: "bind_err (Inr x) f = f x"
  by (simp add: bind_err_def)

lemma bind_err_Inl [simp]: "bind_err (Inl e) f = Inl e"
  by (simp add: bind_err_def)

lemma for_each_pure: "for_each xs (\<lambda>x s. Inr (g x s)) s = Inr (fold g xs s)"
  by (induction xs arbitrary: s) simp_all

lemma for_each_append:
  "for_each (xs @ ys) body s = bind_err (for_each xs body s) (for_each ys body)"
proof (induction xs arbitrary: s)
  case Nil
  show ?case by simp
next
  case (Cons x xs)
  show ?case
    by (cases "body x s") (simp_all add: Cons.IH)
qed

lemma dict_get_set_same [simp]: "dict_get (dict_set d k v) k = Inr v"
  by (simp add: dict_get_def dict_set_def update_conv')

lemma dict_set_twice [simp]: "dict_set (dict_set d k v) k w = dict_set d k w"
  by (simp add: dict_set_def)

lemma keys_fromkeys [simp]: "keys (fromkeys ks v) = ks"
  by (simp add: keys_def fromkeys_def comp_def)

lemma update_mid:
  "k \<notin> fst ` set xs \<Longrightarrow> AList.update k v (xs @ (k, w) # ys) = xs @ (k, v) # ys"
  by (induction xs) auto

lemma fold_set_keys:
  "distinct (map fst (xs @ ys)) \<Longrightarrow>
   fold (\<lambda>p pv. dict_set pv p (f p)) (map fst ys) (xs @ ys) = xs @ map (\<lambda>(k, w). (k, f k)) ys"
proof (induction ys arbitrary: xs)
  case Nil
  show ?case by simp
next
  case (Cons kw ys)
  obtain k w where kw: "kw = (k, w)" by (cases kw)
  from Cons.prems have notin: "k \<notin> fst ` set xs" and
    dist: "distinct (map fst ((xs @ [(k, f k)]) @ ys))"
    by (auto simp: kw)
  have "dict_set (xs @ kw # ys) k (f k) = (xs @ [(k, f k)]) @ ys"
    using update_mid [OF notin] by (simp add: dict_set_def kw)
  then show ?case
    using Cons.IH [OF dist] by (simp add: kw)
qed

lemma fold_set_fromkeys:
  assumes "distinct ks"
  shows "fold (\<lambda>p pv. dict_set pv p (f p)) ks (fromkeys ks z) = map (\<lambda>k. (k, f k)) ks"
proof -
  have "distinct (map fst ([] @ fromkeys ks z))"
    using assms by (simp add: fromkeys_def comp_def)
  from fold_set_keys [OF this, of f]
  show ?thesis by (simp add: fromkeys_def comp_def)
qed

lemma dict_get_Inr_nonempty: "dict_get d k = Inr v \<Longrightarrow> d \<noteq> []"
  by (auto simp: dict_get_def)

lemma dict_get_mem: "dict_get d k = Inr v \<Longrightarrow> (k, v) \<in> set d"
  by (auto simp: dict_get_def split: option.splits dest: map_of_SomeD)

lemma dict_get_keys: "k \<in> set (keys d) \<Longrightarrow> \<exists>v. dict_get d k = Inr v"
  by (cases "map_of d k") (auto simp: dict_get_def keys_def map_of_eq_None_iff)

lemma dict_get_not_keys: "k \<notin> set (keys d) \<Longrightarrow> dict_get d k = Inl KeyError"
  by (cases "map_of d k") (auto simp: dict_get_def keys_def map_of_eq_None_iff [symmetric])

lemma update_new: "k \<notin> fst ` set acc \<Longrightarrow> AList.update k w acc = acc @ [(k, w)]"
  by (induction acc) auto

lemma dict_comp_acc:
  assumes "distinct (map fst acc @ map fst d)"
    and "\<And>k v. (k, v) \<in> set d \<Longrightarrow> f k v = Inr (g k v)"
  shows "for_each d (\<lambda>(k, v) acc. bind_err (f k v) (\<lambda>w. Inr (dict_set acc k w))) acc =
         Inr (acc @ map (\<lambda>(k, v). (k, g k v)) d)"
  using assms
proof (induction d arbitrary: acc)
  case Nil
  show ?case by simp
next
  case (Cons kv d)
  obtain k v where kv: "kv = (k, v)" by (cases kv)
  have notin: "k \<notin> fst ` set acc" and dist: "distinct (map fst (acc @ [(k, g k v)]) @ map fst d)"
    using Cons.prems(1) by (auto simp: kv)
  have f: "f k v = Inr (g k v)"
    using Cons.prems(2) by (simp add: kv)
  have rest: "\<And>k v. (k, v) \<in> set d \<Longrightarrow> f k v = Inr (g k v)"
    using Cons.prems(2) by simp
  show ?case
    using Cons.IH [OF dist rest] by (simp add: kv f dict_set_def update_new [OF notin])
qed

lemma dict_comp_map:
  assumes "is_dict d" and "\<And>k v. (k, v) \<in> set d \<Longrightarrow> f k v = Inr (g k v)"
  shows "dict_comp f d = Inr (map (\<lambda>(k, v). (k, g k v)) d)"
  using dict_comp_acc [of "[]" d f g] assms
  by (simp add: dict_comp_def is_dict_def keys_def)

lemma dict_comp_Nil [simp]: "dict_comp f [] = Inr []"
  by (simp add: dict_comp_def)

lemma dict_comp_first_error: "f k v = Inl e \<Longrightarrow> dict_comp f ((k, v) # d) = Inl e"
  by (simp add: dict_comp_def)


subsection \<open>The transition model in closed form\<close>

lemma fcard_pos: "links \<noteq> {||} \<Longrightarrow> fcard links \<noteq> 0"
  by (simp add: fcard_0_eq)

lemma transition_model_eq:
  assumes d: "is_dict corpus" and g: "dict_get corpus page = Inr links"
  shows "transition_model corpus page d =
         Inr (map (\<lambda>p. (p, tm_value (length corpus) links d p)) (keys corpus))"
proof -
  have ne: "length corpus \<noteq> 0"
    using dict_get_Inr_nonempty [OF g] by simp
  have dk: "distinct (keys corpus)"
    using d by (simp add: is_dict_def)
  show ?thesis
  proof (cases "links = {||}")
    case True
    then show ?thesis
      using ne by (simp add: transition_model_def g py_div_def for_each_pure
          fold_set_fromkeys [OF dk] tm_value_def)
  next
    case False
    have body: "(\<lambda>p pv.
               bind_err (py_div (1 - d) (of_nat (length corpus))) (\<lambda>base.
                 let pv1 = dict_set pv p base in
                 if p |\<in>| links then
                   bind_err (dict_get pv1 p) (\<lambda>cur.
                   bind_err (py_div d (of_nat (fcard links))) (\<lambda>share.
                     Inr (dict_set pv1 p (cur + share))))
                 else Inr pv1))
        = (\<lambda>p pv. Inr (dict_set pv p (tm_value (length corpus) links d p)))"
      using ne fcard_pos [OF False] False
      by (intro ext) (simp add: py_div_def tm_value_def Let_def)
    show ?thesis
      using False
      by (simp add: transition_model_def g body for_each_pure fold_set_fromkeys [OF dk])
  qed
qed

lemma sum_list_indicator:
  assumes "distinct xs" and "B \<subseteq> set xs" and "finite B"
  shows "sum_list (map (\<lambda>p. if p \<in> B then c else (0::rat)) xs) = of_nat (card B) * c"
proof -
  have "sum_list (map (\<lambda>p. if p \<in> B then c else 0) xs) = (\<Sum>p\<in>set xs. if p \<in> B then c else 0)"
    using assms(1) by (simp add: sum_list_distinct_conv_sum_set)
  also have "\<dots> = (\<Sum>p\<in>set xs \<inter> B. c)"
    by (simp add: sum.inter_restrict [symmetric])
  also have "\<dots> = (\<Sum>p\<in>B. c)"
    using assms(2) by (simp add: Int_absorb1)
  also have "\<dots> = of_nat (card B) * c"
    by simp
  finally show ?thesis .
qed

lemma tm_value_sum:
  assumes dk: "distinct ks" and ne: "ks \<noteq> []" and sub: "fset links \<subseteq> set ks"
  shows "sum_list (map (tm_value (length ks) links d) ks) = 1"
proof (cases "links = {||}")
  case True
  have "tm_value (length ks) links d = (\<lambda>p. 1 / of_nat (length ks))"
    using True by (intro ext) (simp add: tm_value_def)
  then show ?thesis
    using ne by (simp add: sum_list_triv)
next
  case False
  have split: "tm_value (length ks) links d =
      (\<lambda>p. (1 - d) / of_nat (length ks) + (if p \<in> fset links then d / of_nat (fcard links) else 0))"
    using False by (intro ext) (simp add: tm_value_def)
  have k: "of_nat (fcard links) \<noteq> (0::rat)"
    using False by (simp add: fcard_0_eq)
  have n: "of_nat (length ks) \<noteq> (0::rat)"
    using ne by simp
  have "sum_list (map (tm_value (length ks) links d) ks) =
      of_nat (length ks) * ((1 - d) / of_nat (length ks)) +
      of_nat (card (fset links)) * (d / of_nat (fcard links))"
    unfolding split
    by (simp add: sum_list_addf sum_list_triv sum_list_indicator [OF dk sub])
  also have "\<dots> = (1 - d) + d"
    using k n by (simp add: fcard.rep_eq)
  finally show ?thesis by simp
qed

subsection \<open>The transition model\<close>

text \<open>
  Claim C4. For every graph, every page of it whose outbound set \<open>L\<close> is not empty, and
  every damping factor, \<open>transition_model\<close> returns a dictionary with the pages of the
  graph as keys, in which a page of \<open>L\<close> has \<open>(1 - damping) / N + damping / |L|\<close> and every
  other page has \<open>(1 - damping) / N\<close>, where \<open>N\<close> is the number of pages.
\<close>

theorem transition_model_linked:
  assumes "is_dict corpus" and "dict_get corpus page = Inr L" and "L \<noteq> {||}"
  shows "transition_model corpus page d =
         Inr (map (\<lambda>p. (p, if p |\<in>| L
                              then (1 - d) / of_nat (length corpus) + d / of_nat (fcard L)
                              else (1 - d) / of_nat (length corpus)))
                  (keys corpus))"
  using transition_model_eq [OF assms(1,2), of d] assms(3)
  by (simp add: tm_value_def)

theorem transition_model_linked_witness:
  "is_dict one_dangling \<and> dict_get one_dangling ''A'' = Inr {|''B''|} \<and> {|''B''|} \<noteq> {||} \<and>
   transition_model one_dangling ''A'' (17 / 20) = Inr [(''A'', 3 / 40), (''B'', 37 / 40)]"
proof -
  have h1: "is_dict one_dangling"
    by (simp add: is_dict_def keys_def one_dangling_def)
  have h2: "dict_get one_dangling ''A'' = Inr {|''B''|}"
    by (simp add: dict_get_def one_dangling_def)
  have h3: "{|''B''|} \<noteq> ({||} :: page fset)"
    by simp
  have "transition_model one_dangling ''A'' (17 / 20) = Inr [(''A'', 3 / 40), (''B'', 37 / 40)]"
    using transition_model_linked [OF h1 h2 h3, of "17 / 20"]
    by (simp add: one_dangling_def keys_def fcard_finsert_if fcard_fempty)
  with h1 h2 h3 show ?thesis by simp
qed

text \<open>
  Claim C5. For every graph and every dangling page of it, \<open>transition_model\<close> returns the
  uniform distribution: every page of the graph has \<open>1 / N\<close>, whatever the damping factor.
\<close>

theorem transition_model_dangling:
  assumes "is_dict corpus" and "dict_get corpus page = Inr {||}"
  shows "transition_model corpus page d =
         Inr (map (\<lambda>p. (p, 1 / of_nat (length corpus))) (keys corpus))"
  using transition_model_eq [OF assms, of d]
  by (simp add: tm_value_def)

theorem transition_model_dangling_witness:
  "is_dict one_dangling \<and> dict_get one_dangling ''B'' = Inr {||} \<and>
   transition_model one_dangling ''B'' (17 / 20) = Inr [(''A'', 1 / 2), (''B'', 1 / 2)]"
proof -
  have h1: "is_dict one_dangling"
    by (simp add: is_dict_def keys_def one_dangling_def)
  have h2: "dict_get one_dangling ''B'' = Inr {||}"
    by (simp add: dict_get_def one_dangling_def)
  have "transition_model one_dangling ''B'' (17 / 20) = Inr [(''A'', 1 / 2), (''B'', 1 / 2)]"
    using transition_model_dangling [OF h1 h2, of "17 / 20"]
    by (simp add: one_dangling_def keys_def)
  with h1 h2 show ?thesis by simp
qed

lemma valid_graph_links:
  assumes "valid_graph corpus" and "dict_get corpus page = Inr links"
  shows "fset links \<subseteq> set (keys corpus)"
  using assms dict_get_mem [OF assms(2)]
  by (auto simp: valid_graph_def links_closed_def list_all_iff)

lemma transition_model_total:
  assumes v: "valid_graph corpus" and g: "dict_get corpus page = Inr links"
  shows "transition_model corpus page d =
           Inr (map (\<lambda>p. (p, tm_value (length corpus) links d p)) (keys corpus))"
    and "sum_list (map (tm_value (length corpus) links d) (keys corpus)) = 1"
proof -
  have dk: "distinct (keys corpus)" and ne: "keys corpus \<noteq> []"
    using v by (simp_all add: valid_graph_def is_dict_def keys_def)
  show "transition_model corpus page d =
           Inr (map (\<lambda>p. (p, tm_value (length corpus) links d p)) (keys corpus))"
    using v g by (simp add: transition_model_eq valid_graph_def)
  have "sum_list (map (tm_value (length (keys corpus)) links d) (keys corpus)) = 1"
    by (rule tm_value_sum [OF dk ne valid_graph_links [OF v g]])
  then show "sum_list (map (tm_value (length corpus) links d) (keys corpus)) = 1"
    by (simp add: keys_def)
qed

text \<open>
  Claim C6. For every valid graph, every page of it and every damping factor in \<open>[0, 1]\<close>,
  \<open>transition_model\<close> returns a distribution over the pages of the graph whose values sum
  to 1 (in exact arithmetic the sum is 1, so it is within \<open>10\<^sup>-\<^sup>9\<close> of 1), dangling
  pages included.
\<close>

theorem transition_model_sums_to_one:
  assumes "valid_graph corpus" and "page \<in> set (keys corpus)" and "0 \<le> d" and "d \<le> 1"
  shows "\<exists>dist. transition_model corpus page d = Inr dist \<and> keys dist = keys corpus \<and>
           sum_list (dict_values dist) = 1 \<and> \<bar>sum_list (dict_values dist) - 1\<bar> \<le> 1 / 10 ^ 9"
proof -
  obtain links where g: "dict_get corpus page = Inr links"
    using dict_get_keys [OF assms(2)] by blast
  show ?thesis
    using transition_model_total [OF assms(1) g, of d]
    by (simp add: keys_def dict_values_def comp_def)
qed

theorem transition_model_sums_to_one_witness:
  "valid_graph one_dangling \<and> ''B'' \<in> set (keys one_dangling) \<and> (0::rat) \<le> 17 / 20 \<and>
   (17 / 20 :: rat) \<le> 1 \<and>
   (\<exists>dist. transition_model one_dangling ''B'' (17 / 20) = Inr dist \<and>
      keys dist = keys one_dangling \<and>
      sum_list (dict_values dist) = 1 \<and> \<bar>sum_list (dict_values dist) - 1\<bar> \<le> 1 / 10 ^ 9)"
proof -
  have h1: "valid_graph one_dangling"
    by (simp add: valid_graph_def is_dict_def links_closed_def no_self_links_def keys_def
        one_dangling_def)
  have h2: "''B'' \<in> set (keys one_dangling)"
    by (simp add: keys_def one_dangling_def)
  have h3: "(0::rat) \<le> 17 / 20" and h4: "(17 / 20 :: rat) \<le> 1"
    by simp_all
  show ?thesis
    using transition_model_sums_to_one [OF h1 h2 h3 h4] h1 h2 by simp
qed

subsection \<open>The random walk\<close>

lemma bisect_stop: "\<not> lo < hi \<Longrightarrow> bisect a x lo hi = Inr lo"
  by (subst bisect.simps) simp




lemma length_accumulate_from [simp]: "length (accumulate_from acc ws) = length ws"
  by (induction ws arbitrary: acc) simp_all

lemma length_accumulate [simp]: "length (accumulate ws) = length ws"
  by (simp add: accumulate_def)












subsection \<open>The fixed-point iteration\<close>

lemma iterate_loop_stop:
  "iterate_round corpus d pagerank = Inr (new_prob, diff) \<Longrightarrow> diff < 1 / 1000 \<Longrightarrow>
   iterate_loop corpus d pagerank = Some (Inr pagerank)"
  by (subst iterate_loop.simps) simp

lemma iterate_loop_continue:
  "iterate_round corpus d pagerank = Inr (new_prob, diff) \<Longrightarrow> \<not> diff < 1 / 1000 \<Longrightarrow>
   iterate_loop corpus d pagerank = iterate_loop corpus d new_prob"
  by (subst iterate_loop.simps) simp

lemma iterate_loop_error:
  "iterate_round corpus d pagerank = Inl e \<Longrightarrow> iterate_loop corpus d pagerank = Some (Inl e)"
  by (subst iterate_loop.simps) simp

lemma iterate_loop_stopped:
  assumes "iterate_loop corpus d pagerank0 = Some res"
  shows "stopped_at corpus d pagerank0 res"
proof (rule iterate_loop.raw_induct [where P = stopped_at, OF _ assms])
  fix loop c df p0 res
  assume IH: "\<And>c df p0 res. loop c df p0 = Some res \<Longrightarrow> stopped_at c df p0 res"
    and body: "(case iterate_round c df p0 of
                  Inl e \<Rightarrow> Some (Inl e)
                | Inr (new_prob, diff) \<Rightarrow>
                    if diff < 1 / 1000 then Some (Inr p0) else loop c df new_prob) = Some res"
  show "stopped_at c df p0 res"
  proof (cases "iterate_round c df p0")
    case (Inl e)
    with body show ?thesis by (auto simp: stopped_at_def)
  next
    case (Inr nd)
    obtain new_prob diff where nd: "nd = (new_prob, diff)" by (cases nd)
    show ?thesis
    proof (cases "diff < 1 / 1000")
      case True
      have "rank_after c df 0 p0 = Inr p0" by simp
      with True body Inr nd show ?thesis
        unfolding stopped_at_def by (auto simp del: rank_after.simps)
    next
      case False
      with body Inr nd have "loop c df new_prob = Some res" by simp
      from IH [OF this] have rest: "stopped_at c df new_prob res" .
      show ?thesis
      proof (cases res)
        case (Inl e)
        then show ?thesis by (simp add: stopped_at_def)
      next
        case res: (Inr p)
        from rest obtain k new_p diff_p where k: "rank_after c df k new_prob = Inr p"
          and t: "iterate_round c df p = Inr (new_p, diff_p)" "diff_p < 1 / 1000"
          by (auto simp: stopped_at_def res)
        have "rank_after c df (Suc k) p0 = Inr p"
          by (simp add: Inr nd k)
        with t show ?thesis
          unfolding stopped_at_def res by (auto simp del: rank_after.simps)
      qed
    qed
  qed
qed

lemma iterate_pagerank_result:
  assumes "iterate_pagerank corpus d = Some (Inr res)"
  shows "\<exists>rank0 k rank new_prob diff.
           dict_comp (\<lambda>page ls. py_div 1 (of_nat (length corpus))) corpus = Inr rank0 \<and>
           rank_after corpus d k rank0 = Inr rank \<and>
           iterate_round corpus d rank = Inr (new_prob, diff) \<and> diff < 1 / 1000 \<and>
           normalize rank = Inr res"
proof -
  from assms obtain rank0 rank
    where i: "dict_comp (\<lambda>page ls. py_div 1 (of_nat (length corpus))) corpus = Inr rank0"
      and l: "iterate_loop corpus d rank0 = Some (Inr rank)" and n: "normalize rank = Inr res"
    by (auto simp: iterate_pagerank_def Let_def split: sum.splits option.splits)
  from iterate_loop_stopped [OF l] show ?thesis
    using i n unfolding stopped_at_def by auto
qed

text \<open>Evaluation of the model on a concrete graph.\<close>

lemmas eval_defs =
  bind_err_def keys_def dict_values_def dict_get_def dict_set_def fromkeys_def py_div_def
  transition_model_def dict_comp_def prob_links_of_def iterate_round_def normalize_def
  fcard_finsert_if fcard_fempty

lemma one_dangling_rounds:
  "iterate_round one_dangling (1 / 2) [(''A'', 1 / 2), (''B'', 1 / 2)] =
     Inr ([(''A'', 3 / 8), (''B'', 5 / 8)], 1 / 4)"
  "iterate_round one_dangling (1 / 2) [(''A'', 3 / 8), (''B'', 5 / 8)] =
     Inr ([(''A'', 13 / 32), (''B'', 19 / 32)], 1 / 16)"
  "iterate_round one_dangling (1 / 2) [(''A'', 13 / 32), (''B'', 19 / 32)] =
     Inr ([(''A'', 51 / 128), (''B'', 77 / 128)], 1 / 64)"
  "iterate_round one_dangling (1 / 2) [(''A'', 51 / 128), (''B'', 77 / 128)] =
     Inr ([(''A'', 205 / 512), (''B'', 307 / 512)], 1 / 256)"
  "iterate_round one_dangling (1 / 2) [(''A'', 205 / 512), (''B'', 307 / 512)] =
     Inr ([(''A'', 819 / 2048), (''B'', 1229 / 2048)], 1 / 1024)"
  by (simp_all add: eval_defs one_dangling_def)

lemma one_dangling_loop:
  "iterate_loop one_dangling (1 / 2) [(''A'', 1 / 2), (''B'', 1 / 2)] =
     Some (Inr [(''A'', 205 / 512), (''B'', 307 / 512)])"
proof -
  have "iterate_loop one_dangling (1 / 2) [(''A'', 1 / 2), (''B'', 1 / 2)] =
        iterate_loop one_dangling (1 / 2) [(''A'', 3 / 8), (''B'', 5 / 8)]"
    by (rule iterate_loop_continue [OF one_dangling_rounds(1)]) simp
  also have "\<dots> = iterate_loop one_dangling (1 / 2) [(''A'', 13 / 32), (''B'', 19 / 32)]"
    by (rule iterate_loop_continue [OF one_dangling_rounds(2)]) simp
  also have "\<dots> = iterate_loop one_dangling (1 / 2) [(''A'', 51 / 128), (''B'', 77 / 128)]"
    by (rule iterate_loop_continue [OF one_dangling_rounds(3)]) simp
  also have "\<dots> = iterate_loop one_dangling (1 / 2) [(''A'', 205 / 512), (''B'', 307 / 512)]"
    by (rule iterate_loop_continue [OF one_dangling_rounds(4)]) simp
  also have "\<dots> = Some (Inr [(''A'', 205 / 512), (''B'', 307 / 512)])"
    by (rule iterate_loop_stop [OF one_dangling_rounds(5)]) simp
  finally show ?thesis .
qed

lemma one_dangling_initial:
  "dict_comp (\<lambda>page ls. py_div 1 (of_nat (length one_dangling))) one_dangling =
     Inr [(''A'', 1 / 2), (''B'', 1 / 2)]"
  by (simp add: eval_defs one_dangling_def)

lemma one_dangling_iterate:
  "iterate_pagerank one_dangling (1 / 2) = Some (Inr [(''A'', 205 / 512), (''B'', 307 / 512)])"
proof -
  have "normalize [(''A'', 205 / 512), (''B'', 307 / 512)] =
        Inr [(''A'', 205 / 512), (''B'', 307 / 512)]"
    by (simp add: eval_defs)
  then show ?thesis
    by (simp add: iterate_pagerank_def one_dangling_initial one_dangling_loop)
qed

text \<open>
  Claim C1, as amended. In every round the distance \<open>diff\<close> between \<open>new_prob\<close> and the
  current rank is computed and tested first. When it is below \<open>1/1000\<close> the loop stops
  and keeps the current rank; only when the test fails is the rank replaced by
  \<open>new_prob\<close>. So the vector that is normalised and returned is the rank from which the
  last round started: the initial rank after some number \<open>k\<close> of replacements, whose
  next round (round \<open>k + 1\<close>) passes the test; it is not the \<open>new_prob\<close> of that round.
\<close>

theorem iterate_returns_current_rank:
  "(iterate_round corpus d rank = Inr (new_prob, diff) \<and> diff < 1 / 1000 \<longrightarrow>
      iterate_loop corpus d rank = Some (Inr rank)) \<and>
   (iterate_round corpus d rank = Inr (new_prob, diff) \<and> \<not> diff < 1 / 1000 \<longrightarrow>
      iterate_loop corpus d rank = iterate_loop corpus d new_prob) \<and>
   (iterate_pagerank corpus d = Some (Inr res) \<longrightarrow>
      (\<exists>rank0 k r new_r diff_r.
         dict_comp (\<lambda>page ls. py_div 1 (of_nat (length corpus))) corpus = Inr rank0 \<and>
         rank_after corpus d k rank0 = Inr r \<and>
         iterate_round corpus d r = Inr (new_r, diff_r) \<and> diff_r < 1 / 1000 \<and>
         normalize r = Inr res))"
  using iterate_loop_stop [of corpus d rank new_prob diff]
    iterate_loop_continue [of corpus d rank new_prob diff]
    iterate_pagerank_result [of corpus d res]
  by blast

theorem iterate_returns_current_rank_witness:
  "iterate_round one_dangling (1 / 2) [(''A'', 205 / 512), (''B'', 307 / 512)] =
     Inr ([(''A'', 819 / 2048), (''B'', 1229 / 2048)], 1 / 1024) \<and>
   (1 / 1024 :: rat) < 1 / 1000 \<and>
   iterate_loop one_dangling (1 / 2) [(''A'', 205 / 512), (''B'', 307 / 512)] =
     Some (Inr [(''A'', 205 / 512), (''B'', 307 / 512)]) \<and>
   iterate_round one_dangling (1 / 2) [(''A'', 1 / 2), (''B'', 1 / 2)] =
     Inr ([(''A'', 3 / 8), (''B'', 5 / 8)], 1 / 4) \<and>
   \<not> (1 / 4 :: rat) < 1 / 1000 \<and>
   iterate_loop one_dangling (1 / 2) [(''A'', 1 / 2), (''B'', 1 / 2)] =
     iterate_loop one_dangling (1 / 2) [(''A'', 3 / 8), (''B'', 5 / 8)] \<and>
   iterate_pagerank one_dangling (1 / 2) = Some (Inr [(''A'', 205 / 512), (''B'', 307 / 512)]) \<and>
   (\<exists>rank0 k r new_r diff_r.
      dict_comp (\<lambda>page ls. py_div 1 (of_nat (length one_dangling))) one_dangling = Inr rank0 \<and>
      rank_after one_dangling (1 / 2) k rank0 = Inr r \<and>
      iterate_round one_dangling (1 / 2) r = Inr (new_r, diff_r) \<and>
      diff_r < 1 / 1000 \<and> normalize r = Inr [(''A'', 205 / 512), (''B'', 307 / 512)])"
proof -
  have a: "(1 / 1024 :: rat) < 1 / 1000" and b: "\<not> (1 / 4 :: rat) < 1 / 1000"
    by simp_all
  have stop: "iterate_loop one_dangling (1 / 2) [(''A'', 205 / 512), (''B'', 307 / 512)] =
     Some (Inr [(''A'', 205 / 512), (''B'', 307 / 512)])"
    using iterate_returns_current_rank
      [of one_dangling "1 / 2" "[(''A'', 205 / 512), (''B'', 307 / 512)]"
         "[(''A'', 819 / 2048), (''B'', 1229 / 2048)]" "1 / 1024"]
      one_dangling_rounds(5) a by blast
  have go: "iterate_loop one_dangling (1 / 2) [(''A'', 1 / 2), (''B'', 1 / 2)] =
     iterate_loop one_dangling (1 / 2) [(''A'', 3 / 8), (''B'', 5 / 8)]"
    using iterate_returns_current_rank
      [of one_dangling "1 / 2" "[(''A'', 1 / 2), (''B'', 1 / 2)]"
         "[(''A'', 3 / 8), (''B'', 5 / 8)]" "1 / 4"]
      one_dangling_rounds(1) b by blast
  have res: "\<exists>rank0 k r new_r diff_r.
      dict_comp (\<lambda>page ls. py_div 1 (of_nat (length one_dangling))) one_dangling = Inr rank0 \<and>
      rank_after one_dangling (1 / 2) k rank0 = Inr r \<and>
      iterate_round one_dangling (1 / 2) r = Inr (new_r, diff_r) \<and>
      diff_r < 1 / 1000 \<and> normalize r = Inr [(''A'', 205 / 512), (''B'', 307 / 512)]"
    using iterate_returns_current_rank
      [of one_dangling "1 / 2" _ _ _ "[(''A'', 205 / 512), (''B'', 307 / 512)]"]
      one_dangling_iterate by blast
  show ?thesis
    using a b stop go res one_dangling_rounds(1,5) one_dangling_iterate by blast
qed

text \<open>
  Claim C1, as stated, fails on the graph \<open>{A: {B}, B: {}}\<close> with damping factor \<open>1/2\<close>:
  the fifth round starts from \<open>(205/512, 307/512)\<close>, computes
  \<open>new_prob = (819/2048, 1229/2048)\<close> at distance \<open>1/1024 < 1/1000\<close> and stops; the value
  returned is the rank the round started from, not \<open>new_prob\<close> (which sums to 1, so
  normalising leaves it unchanged).
\<close>

theorem iterate_returns_newrank_counterexample:
  "iterate_round one_dangling (1 / 2) [(''A'', 205 / 512), (''B'', 307 / 512)] =
     Inr ([(''A'', 819 / 2048), (''B'', 1229 / 2048)], 1 / 1024) \<and>
   (1 / 1024 :: rat) < 1 / 1000 \<and>
   normalize [(''A'', 819 / 2048), (''B'', 1229 / 2048)] =
     Inr [(''A'', 819 / 2048), (''B'', 1229 / 2048)] \<and>
   iterate_pagerank one_dangling (1 / 2) = Some (Inr [(''A'', 205 / 512), (''B'', 307 / 512)]) \<and>
   iterate_pagerank one_dangling (1 / 2) \<noteq> Some (Inr [(''A'', 819 / 2048), (''B'', 1229 / 2048)])"
proof -
  have "normalize [(''A'', 819 / 2048), (''B'', 1229 / 2048)] =
     Inr [(''A'', 819 / 2048), (''B'', 1229 / 2048)]"
    by (simp add: eval_defs)
  then show ?thesis
    by (simp add: one_dangling_rounds(5) one_dangling_iterate)
qed

text \<open>
  Claim C8. On the two-page cycle \<open>{A: {B}, B: {A}}\<close> with damping factor \<open>0.85\<close>,
  \<open>iterate_pagerank\<close> returns, and the ranks of \<open>A\<close> and \<open>B\<close> in its result are within
  \<open>1/1000\<close> of \<open>1/2\<close> (they are \<open>1/2\<close>).
\<close>

theorem two_cycle_ranks:
  "iterate_pagerank two_cycle (17 / 20) = Some (Inr [(''A'', 1 / 2), (''B'', 1 / 2)]) \<and>
   (\<exists>r a b. iterate_pagerank two_cycle (17 / 20) = Some (Inr r) \<and> keys r = keys two_cycle \<and>
      dict_get r ''A'' = Inr a \<and> dict_get r ''B'' = Inr b \<and>
      \<bar>a - 1 / 2\<bar> \<le> 1 / 1000 \<and> \<bar>b - 1 / 2\<bar> \<le> 1 / 1000)"
proof -
  have init: "dict_comp (\<lambda>page ls. py_div 1 (of_nat (length two_cycle))) two_cycle =
     Inr [(''A'', 1 / 2), (''B'', 1 / 2)]"
    by (simp add: eval_defs two_cycle_def)
  have round: "iterate_round two_cycle (17 / 20) [(''A'', 1 / 2), (''B'', 1 / 2)] =
     Inr ([(''A'', 1 / 2), (''B'', 1 / 2)], 0)"
    by (simp add: eval_defs two_cycle_def)
  have loop: "iterate_loop two_cycle (17 / 20) [(''A'', 1 / 2), (''B'', 1 / 2)] =
     Some (Inr [(''A'', 1 / 2), (''B'', 1 / 2)])"
    by (rule iterate_loop_stop [OF round]) simp
  have norm: "normalize [(''A'', 1 / 2), (''B'', 1 / 2)] = Inr [(''A'', 1 / 2), (''B'', 1 / 2)]"
    by (simp add: eval_defs)
  have res: "iterate_pagerank two_cycle (17 / 20) = Some (Inr [(''A'', 1 / 2), (''B'', 1 / 2)])"
    by (simp add: iterate_pagerank_def init loop norm)
  have "keys [(''A'', 1 / 2 :: rat), (''B'', 1 / 2)] = keys two_cycle"
    and "dict_get [(''A'', 1 / 2 :: rat), (''B'', 1 / 2)] ''A'' = Inr (1 / 2)"
    and "dict_get [(''A'', 1 / 2 :: rat), (''B'', 1 / 2)] ''B'' = Inr (1 / 2)"
    and "\<bar>(1 / 2 :: rat) - 1 / 2\<bar> \<le> 1 / 1000"
    by (simp_all add: keys_def dict_get_def two_cycle_def)
  with res show ?thesis by blast
qed

subsection \<open>The single-page graph\<close>

lemma single_page_model: "transition_model single_page ''A'' d = Inr [(''A'', 1)]"
  by (simp add: eval_defs single_page_def)

lemma single_page_choices: "random_choices [''A''] [1] raw = Inr ''A''"
  by (simp add: random_choices_def accumulate_def bisect_stop)

lemma single_page_step:
  "sample_step single_page d rng i ([(''A'', c)], ''A'') = Inr ([(''A'', c + 1)], ''A'')"
  by (simp add: sample_step_def single_page_model single_page_choices
      dict_get_def dict_set_def keys_def dict_values_def)

lemma single_page_walk:
  "for_each [0 ..< m] (sample_step single_page d rng) ([(''A'', c)], ''A'') =
     Inr ([(''A'', c + int m)], ''A'')"
proof (induction m)
  case 0
  show ?case by simp
next
  case (Suc m)
  then show ?case
    by (simp add: for_each_append single_page_step add.assoc)
qed

lemma single_page_counts: "sample_counts single_page d n rng = Inr [(''A'', int (nat n))]"
proof -
  have "random_choice (keys single_page) (rng 0) = Inr ''A''"
    by (simp add: random_choice_def keys_def single_page_def)
  moreover have "fromkeys (keys single_page) (0::int) = [(''A'', 0)]"
    by (simp add: fromkeys_def keys_def single_page_def)
  ultimately show ?thesis
    using single_page_walk [of "nat n" d rng 0] by (simp add: sample_counts_def)
qed

text \<open>
  Claim C10. On the graph \<open>{A: {}}\<close>, for every damping factor: \<open>sample_pagerank\<close> returns
  exactly \<open>{A: 1}\<close> for every \<open>n \<ge> 1\<close> and every random source; \<open>iterate_pagerank\<close> starts
  from \<open>{A: 1}\<close>, its first round computes the same vector at distance \<open>0\<close>, so the loop
  stops after that round, and the result is exactly \<open>{A: 1}\<close>.
\<close>

theorem single_page_ranks:
  assumes "1 \<le> n"
  shows "sample_pagerank single_page d n rng = Inr [(''A'', 1)] \<and>
         dict_comp (\<lambda>page ls. py_div 1 (of_nat (length single_page))) single_page =
           Inr [(''A'', 1)] \<and>
         iterate_round single_page d [(''A'', 1)] = Inr ([(''A'', 1)], 0) \<and>
         iterate_pagerank single_page d = Some (Inr [(''A'', 1)])"
proof -
  have n: "rat_of_int n \<noteq> 0" "int (nat n) = n"
    using assms by simp_all
  have sample: "sample_pagerank single_page d n rng = Inr [(''A'', 1)]"
    using n by (simp add: sample_pagerank_def single_page_counts dict_comp_def py_div_def
        dict_set_def)
  have init: "dict_comp (\<lambda>page ls. py_div 1 (of_nat (length single_page))) single_page =
           Inr [(''A'', 1)]"
    by (simp add: eval_defs single_page_def)
  have k: "keys single_page = [''A'']"
    by (simp add: keys_def single_page_def)
  have round: "iterate_round single_page d [(''A'', 1)] = Inr ([(''A'', 1)], 0)"
    by (simp add: iterate_round_def prob_links_of_def k single_page_model dict_get_def
        dict_set_def)
  have loop: "iterate_loop single_page d [(''A'', 1)] = Some (Inr [(''A'', 1)])"
    by (rule iterate_loop_stop [OF round]) simp
  have norm: "normalize [(''A'', 1)] = Inr [(''A'', 1)]"
    by (simp add: eval_defs)
  have "iterate_pagerank single_page d = Some (Inr [(''A'', 1)])"
    by (simp add: iterate_pagerank_def init loop norm)
  with sample init round show ?thesis by simp
qed

theorem single_page_ranks_witness:
  "(1::int) \<le> 10000 \<and>
   sample_pagerank single_page (17 / 20) 10000 (\<lambda>i. 7 * i + 3) = Inr [(''A'', 1)] \<and>
   iterate_round single_page (17 / 20) [(''A'', 1)] = Inr ([(''A'', 1)], 0) \<and>
   iterate_pagerank single_page (17 / 20) = Some (Inr [(''A'', 1)])"
proof -
  have h: "(1::int) \<le> 10000" by simp
  show ?thesis
    using single_page_ranks [OF h, of "17 / 20" "\<lambda>i. 7 * i + 3"] by simp
qed

subsection \<open>The empty graph\<close>

text \<open>
  Claim C3, as amended. The code has no guard for the empty graph. \<open>sample_pagerank\<close>
  fails with the \<open>IndexError\<close> that \<open>random.choice\<close> raises on the empty list of keys,
  before the first step of the walk. \<open>iterate_pagerank\<close> does not fail at all: the
  comprehensions over the empty graph divide nothing, the first round computes distance
  \<open>0\<close>, and the result is the empty dictionary. \<open>transition_model\<close> fails with
  \<open>KeyError\<close> at \<open>corpus[page]\<close>. No \<open>ZeroDivisionError\<close> arises.
\<close>

theorem empty_graph_behaviour:
  "random_choice (keys ([] :: corpus)) (rng 0) = Inl IndexError \<and>
   sample_pagerank [] d n rng = Inl IndexError \<and>
   iterate_round [] d [] = Inr ([], 0) \<and>
   iterate_pagerank [] d = Some (Inr []) \<and>
   transition_model [] page d = Inl KeyError"
proof -
  have choice: "random_choice (keys ([] :: corpus)) (rng 0) = Inl IndexError"
    by (simp add: random_choice_def keys_def)
  then have sample: "sample_pagerank [] d n rng = Inl IndexError"
    by (simp add: sample_pagerank_def sample_counts_def)
  have round: "iterate_round [] d [] = Inr ([], 0)"
    by (simp add: iterate_round_def keys_def)
  have loop: "iterate_loop [] d [] = Some (Inr [])"
    by (rule iterate_loop_stop [OF round]) simp
  have "normalize [] = Inr []"
    by (simp add: normalize_def)
  then have iter: "iterate_pagerank [] d = Some (Inr [])"
    by (simp add: iterate_pagerank_def loop)
  have "transition_model [] page d = Inl KeyError"
    by (simp add: transition_model_def dict_get_def)
  with choice sample round iter show ?thesis by simp
qed

text \<open>
  Claim C3, as stated, fails: on the empty graph \<open>iterate_pagerank\<close> returns the empty
  result and reports no error.
\<close>

theorem empty_graph_counterexample:
  "iterate_pagerank [] (17 / 20) = Some (Inr [])"
proof -
  have round: "iterate_round [] (17 / 20) [] = Inr ([], 0)"
    by (simp add: iterate_round_def keys_def)
  have loop: "iterate_loop [] (17 / 20) [] = Some (Inr [])"
    by (rule iterate_loop_stop [OF round]) simp
  have "normalize [] = Inr []"
    by (simp add: normalize_def)
  then show ?thesis
    by (simp add: iterate_pagerank_def loop)
qed

subsection \<open>Parameters are not validated\<close>

lemma sample_counts_no_steps:
  assumes "corpus \<noteq> []" and "n \<le> 0"
  shows "sample_counts corpus d n rng = Inr (fromkeys (keys corpus) 0)"
proof -
  have "keys corpus \<noteq> []"
    using assms(1) by (simp add: keys_def)
  then have "random_choice (keys corpus) (rng 0) =
             Inr (keys corpus ! (rng 0 mod length (keys corpus)))"
    by (simp add: random_choice_def)
  then show ?thesis
    using assms(2) by (simp add: sample_counts_def)
qed

lemma sample_pagerank_zero:
  assumes "corpus \<noteq> []"
  shows "sample_pagerank corpus d 0 rng = Inl ZeroDivisionError"
proof -
  obtain k ls rest where c: "corpus = (k, ls) # rest"
    using assms by (cases corpus) auto
  have "fromkeys (keys corpus) (0::int) = (k, 0) # fromkeys (keys rest) 0"
    by (simp add: c fromkeys_def keys_def)
  then show ?thesis
    using sample_counts_no_steps [OF assms, of 0 d rng]
    by (simp add: sample_pagerank_def dict_comp_first_error py_div_def)
qed

lemma sample_pagerank_negative:
  assumes "is_dict corpus" and "corpus \<noteq> []" and "n < 0"
  shows "sample_pagerank corpus d n rng = Inr (fromkeys (keys corpus) 0)"
proof -
  have n: "rat_of_int n \<noteq> 0" and le: "n \<le> 0"
    using assms(3) by simp_all
  have d: "is_dict (fromkeys (keys corpus) (0::int))"
    using assms(1) by (simp add: is_dict_def)
  have "dict_comp (\<lambda>page count. py_div (of_int count) (of_int n)) (fromkeys (keys corpus) 0) =
        Inr (map (\<lambda>(p, c). (p, of_int c / of_int n)) (fromkeys (keys corpus) 0))"
    using n by (intro dict_comp_map [OF d]) (simp add: py_div_def)
  also have "map (\<lambda>(p, c). (p, rat_of_int c / rat_of_int n)) (fromkeys (keys corpus) 0) =
             fromkeys (keys corpus) 0"
    by (simp add: fromkeys_def)
  finally show ?thesis
    using sample_counts_no_steps [OF assms(2) le, of d rng]
    by (simp add: sample_pagerank_def)
qed

lemma transition_model_missing_page:
  "page \<notin> set (keys corpus) \<Longrightarrow> transition_model corpus page d = Inl KeyError"
  by (simp add: transition_model_def dict_get_not_keys)

lemma transition_model_any_damping:
  assumes "is_dict corpus" and "page \<in> set (keys corpus)"
  shows "\<exists>dist. transition_model corpus page d = Inr dist \<and> keys dist = keys corpus"
proof -
  obtain links where "dict_get corpus page = Inr links"
    using dict_get_keys [OF assms(2)] by blast
  from transition_model_eq [OF assms(1) this, of d] show ?thesis
    by (simp add: keys_def comp_def)
qed

text \<open>
  Claim C2, as amended. No operation validates its parameters, and there is no
  \<open>InvalidParameter\<close> error. \<open>transition_model\<close> fails with \<open>KeyError\<close> when the page is
  not a key of the graph, and for a page of the graph it returns a dictionary over the
  pages of the graph for every damping factor, also outside \<open>[0, 1]\<close>.
  \<open>sample_pagerank\<close> on a graph with at least one page fails for \<open>n = 0\<close> with
  \<open>ZeroDivisionError\<close>, raised by the final division, and for \<open>n < 0\<close> returns every
  page with value \<open>0\<close>. \<open>iterate_pagerank\<close> has no tolerance parameter.
\<close>

theorem parameters_not_validated:
  "(page \<notin> set (keys corpus) \<longrightarrow> transition_model corpus page d = Inl KeyError) \<and>
   (is_dict corpus \<and> page \<in> set (keys corpus) \<longrightarrow>
      (\<exists>dist. transition_model corpus page d = Inr dist \<and> keys dist = keys corpus)) \<and>
   (corpus \<noteq> [] \<longrightarrow> sample_pagerank corpus d 0 rng = Inl ZeroDivisionError) \<and>
   (is_dict corpus \<and> corpus \<noteq> [] \<and> n < 0 \<longrightarrow>
      sample_pagerank corpus d n rng = Inr (fromkeys (keys corpus) 0))"
  using transition_model_missing_page [of page corpus d]
    transition_model_any_damping [of corpus page d]
    sample_pagerank_zero [of corpus d rng]
    sample_pagerank_negative [of corpus n d rng]
  by blast

theorem parameters_not_validated_witness:
  "''C'' \<notin> set (keys one_dangling) \<and>
   transition_model one_dangling ''C'' (3 / 2) = Inl KeyError \<and>
   is_dict one_dangling \<and> ''A'' \<in> set (keys one_dangling) \<and>
   (\<exists>dist. transition_model one_dangling ''A'' (3 / 2) = Inr dist \<and>
      keys dist = keys one_dangling) \<and>
   one_dangling \<noteq> [] \<and>
   sample_pagerank one_dangling (3 / 2) 0 (\<lambda>i. i) = Inl ZeroDivisionError \<and>
   (- 1 :: int) < 0 \<and>
   sample_pagerank one_dangling (3 / 2) (- 1) (\<lambda>i. i) = Inr [(''A'', 0), (''B'', 0)]"
proof -
  have h1: "''C'' \<notin> set (keys one_dangling)" and h2: "''A'' \<in> set (keys one_dangling)"
    and h3: "is_dict one_dangling" and h4: "one_dangling \<noteq> []"
    and k: "fromkeys (keys one_dangling) (0::rat) = [(''A'', 0), (''B'', 0)]"
    by (simp_all add: keys_def is_dict_def fromkeys_def one_dangling_def)
  have h5: "(- 1 :: int) < 0" by simp
  note t1 = parameters_not_validated [of "''C''" one_dangling "3 / 2" "\<lambda>i. i" "- 1"]
  note t2 = parameters_not_validated [of "''A''" one_dangling "3 / 2" "\<lambda>i. i" "- 1"]
  have a: "transition_model one_dangling ''C'' (3 / 2) = Inl KeyError"
    using t1 h1 by blast
  have b: "\<exists>dist. transition_model one_dangling ''A'' (3 / 2) = Inr dist \<and>
      keys dist = keys one_dangling"
    using t2 h2 h3 by blast
  have c: "sample_pagerank one_dangling (3 / 2) 0 (\<lambda>i. i) = Inl ZeroDivisionError"
    using t2 h4 by blast
  have d: "sample_pagerank one_dangling (3 / 2) (- 1) (\<lambda>i. i) = Inr [(''A'', 0), (''B'', 0)]"
    using t2 h3 h4 h5 k by simp
  show ?thesis
    using h1 h2 h3 h4 h5 a b c d by blast
qed

text \<open>
  Claim C2, as stated, fails: with damping factor \<open>3/2\<close>, outside \<open>[0, 1]\<close>,
  \<open>transition_model\<close> does not fail but returns the values of its formula, one negative
  and one above 1; and \<open>sample_pagerank\<close> with \<open>n = -1\<close> returns a result.
\<close>

theorem parameters_validated_counterexample:
  "\<not> (3 / 2 :: rat) \<le> 1 \<and>
   transition_model one_dangling ''A'' (3 / 2) = Inr [(''A'', - (1 / 4)), (''B'', 5 / 4)] \<and>
   (- 1 :: int) < 1 \<and>
   sample_pagerank one_dangling (17 / 20) (- 1) (\<lambda>i. i) = Inr [(''A'', 0), (''B'', 0)]"
proof -
  have "transition_model one_dangling ''A'' (3 / 2) = Inr [(''A'', - (1 / 4)), (''B'', 5 / 4)]"
    by (simp add: eval_defs one_dangling_def)
  moreover have "sample_pagerank one_dangling (17 / 20) (- 1) (\<lambda>i. i) =
      Inr [(''A'', 0), (''B'', 0)]"
    by (simp add: sample_pagerank_def sample_counts_def random_choice_def eval_defs
        one_dangling_def)
  ultimately show ?thesis by simp
qed

subsection \<open>crawl\<close>

lemma set_update_subset: "set (AList.update k v al) \<subseteq> insert (k, v) (set al)"
  by (induction al) auto

lemma is_dict_dict_set: "is_dict d \<Longrightarrow> is_dict (dict_set d k v)"
  by (simp add: is_dict_def keys_def dict_set_def distinct_update)

lemma no_self_links_dict_set:
  "no_self_links pages \<Longrightarrow> k |\<notin>| ls \<Longrightarrow> no_self_links (dict_set pages k ls)"
  using set_update_subset [of k ls pages]
  by (auto simp: no_self_links_def list_all_iff dict_set_def)

lemma read_pages_fold_inv:
  "is_dict pages \<and> no_self_links pages \<Longrightarrow>
   is_dict (fold (\<lambda>(filename, links) pages.
             if \<not> suffix ''.html'' filename then pages
             else dict_set pages filename (fset_of_list links |-| {|filename|})) listing pages) \<and>
   no_self_links (fold (\<lambda>(filename, links) pages.
             if \<not> suffix ''.html'' filename then pages
             else dict_set pages filename (fset_of_list links |-| {|filename|})) listing pages)"
proof (induction listing arbitrary: pages)
  case Nil
  then show ?case by simp
next
  case (Cons fl listing)
  obtain filename links where fl: "fl = (filename, links)" by (cases fl)
  have "is_dict (dict_set pages filename (fset_of_list links |-| {|filename|})) \<and>
        no_self_links (dict_set pages filename (fset_of_list links |-| {|filename|}))"
    using Cons.prems by (simp add: is_dict_dict_set no_self_links_dict_set)
  with Cons.prems show ?case
    by (auto simp: fl intro!: Cons.IH)
qed

lemma read_pages_inv: "is_dict (read_pages listing) \<and> no_self_links (read_pages listing)"
  unfolding read_pages_def
  by (rule read_pages_fold_inv) (simp add: is_dict_def no_self_links_def keys_def)

lemma dict_get_mid:
  "k \<notin> fst ` set xs \<Longrightarrow> dict_get (xs @ (k, v) # ys) k = Inr v"
  by (simp add: dict_get_def map_of_append map_add_def map_of_eq_None_iff [THEN iffD2]
      split: option.splits)

lemma restrict_links_acc:
  assumes "distinct (map fst (xs @ ys))" and "set K = fst ` set (xs @ ys)"
  shows "for_each (map fst ys)
           (\<lambda>filename pages.
              bind_err (dict_get pages filename)
                (\<lambda>ls. Inr (dict_set pages filename
                              (ffilter (\<lambda>link. link \<in> set (keys pages)) ls))))
           (xs @ ys) =
         Inr (xs @ map (\<lambda>(k, ls). (k, ffilter (\<lambda>link. link \<in> set K) ls)) ys)"
  using assms
proof (induction ys arbitrary: xs)
  case Nil
  show ?case by simp
next
  case (Cons kl ys)
  obtain k ls where kl: "kl = (k, ls)" by (cases kl)
  let ?ls' = "ffilter (\<lambda>link. link \<in> set K) ls"
  have notin: "k \<notin> fst ` set xs"
    and dist: "distinct (map fst ((xs @ [(k, ?ls')]) @ ys))"
    and K': "set K = fst ` set ((xs @ [(k, ?ls')]) @ ys)"
    using Cons.prems by (auto simp: kl)
  have g: "dict_get (xs @ (k, ls) # ys) k = Inr ls"
    by (rule dict_get_mid [OF notin])
  have ks: "set (keys (xs @ (k, ls) # ys)) = set K"
    using Cons.prems(2) by (simp add: keys_def image_Un kl)
  have u: "dict_set (xs @ (k, ls) # ys) k ?ls' = (xs @ [(k, ?ls')]) @ ys"
    using update_mid [OF notin] by (simp add: dict_set_def)
  show ?case
    using Cons.IH [OF dist K'] by (simp add: kl g ks u)
qed

lemma restrict_links_eq:
  assumes "is_dict pages"
  shows "restrict_links pages =
         Inr (map (\<lambda>(k, ls). (k, ffilter (\<lambda>link. link \<in> set (keys pages)) ls)) pages)"
proof -
  have "distinct (map fst ([] @ pages))" and "set (keys pages) = fst ` set ([] @ pages)"
    using assms by (simp_all add: is_dict_def keys_def)
  from restrict_links_acc [OF this] show ?thesis
    by (simp add: restrict_links_def keys_def)
qed

text \<open>
  Claim C9. For every directory listing, \<open>crawl\<close> returns a graph, its keys are distinct,
  every outbound set contains only keys of the graph (no link leaves the page set) and no
  page is in its own outbound set.
\<close>

theorem crawl_invariants:
  "\<exists>pages. crawl listing = Inr pages \<and> is_dict pages \<and> links_closed pages \<and>
     no_self_links pages"
proof -
  let ?P = "read_pages listing"
  let ?R = "map (\<lambda>(k, ls). (k, ffilter (\<lambda>link. link \<in> set (keys ?P)) ls)) ?P"
  have P: "is_dict ?P" "no_self_links ?P"
    using read_pages_inv [of listing] by simp_all
  have c: "crawl listing = Inr ?R"
    by (simp add: crawl_def restrict_links_eq [OF P(1)])
  have k: "keys ?R = keys ?P"
    by (simp add: keys_def comp_def case_prod_unfold)
  have "is_dict ?R"
    using P(1) k by (simp add: is_dict_def)
  moreover have "links_closed ?R"
    unfolding links_closed_def k by (auto simp: list_all_iff)
  moreover have "no_self_links ?R"
    using P(2) by (auto simp: no_self_links_def list_all_iff)
  ultimately show ?thesis
    using c by blast
qed

theorem crawl_invariants_witness:
  "\<exists>pages. crawl [(''a.html'', [''b.html'', ''a.html'', ''c.html'', ''x.html'']),
                    (''b.html'', [''a.html'']), (''notes.txt'', [''a.html'']),
                    (''c.html'', [])] = Inr pages \<and>
     pages = [(''a.html'', {|''b.html'', ''c.html''|}), (''b.html'', {|''a.html''|}),
              (''c.html'', {||})] \<and>
     is_dict pages \<and> links_closed pages \<and> no_self_links pages"
proof -
  let ?L = "[(''a.html'', [''b.html'', ''a.html'', ''c.html'', ''x.html'']),
             (''b.html'', [''a.html'']), (''notes.txt'', [''a.html'']),
             (''c.html'', [])]"
  have r: "read_pages ?L = [(''a.html'', {|''b.html'', ''c.html'', ''x.html''|}),
             (''b.html'', {|''a.html''|}), (''c.html'', {||})]"
    by (simp add: read_pages_def dict_set_def suffix_def) auto
  have "crawl ?L = Inr [(''a.html'', {|''b.html'', ''c.html''|}), (''b.html'', {|''a.html''|}),
              (''c.html'', {||})]"
    unfolding crawl_def r
    by (simp add: restrict_links_def keys_def dict_get_def dict_set_def) auto
  then show ?thesis
    using crawl_invariants [of ?L] by auto
qed

end
